theory Spec2Isabelle
  imports Complex_Main "HOL-Library.Word" "HOL-Library.Log_Nat"
begin

unbundle bit_operations_syntax

section \<open>The photo editor of \<^verbatim>\<open>editor/photo_editor.cpp\<close>\<close>

text \<open>
  The file holds two pure helpers, \<^verbatim>\<open>Serialize\<close> and \<^verbatim>\<open>Deserialize\<close>, which store a
  brush in a \<^verbatim>\<open>QByteArray\<close> through a \<^verbatim>\<open>QDataStream\<close>, and the constructor of
  \<^verbatim>\<open>PhotoEditor\<close>, which subscribes one handler to each request stream of the controls
  and of the color picker. The helpers are embedded as functions on byte lists, the
  handlers as functions from the editor's state to the new state and the list of calls
  the handler makes on its collaborators, in the order of the source.
\<close>

subsection \<open>Single precision arithmetic\<close>

text \<open>
  \<^verbatim>\<open>Brush::sizeRatio\<close> is a C++ \<^verbatim>\<open>float\<close>. A finite \<^verbatim>\<open>float\<close> is a rational number, so
  the field is a \<^typ>\<open>rat\<close>, and each arithmetic operation of the source is the exact
  operation followed by the rounding of IEEE 754 binary32 (to nearest, ties to even):
  24 significant bits, the exponent of the least significant bit never below \<open>-149\<close>.
  The exponent is not bounded above here: a product too large for binary32 is also too
  large for \<^verbatim>\<open>qint32\<close>, which is where \<^verbatim>\<open>Serialize\<close> stops being defined.
\<close>

definition pow2 :: "int \<Rightarrow> rat" where
  "pow2 e = (if 0 \<le> e then 2 ^ nat e else 1 / 2 ^ nat (- e))"

text \<open>The exponent of the leading bit of a positive rational: \<open>\<lfloor>log\<^sub>2 x\<rfloor>\<close>.\<close>

definition ilog2 :: "rat \<Rightarrow> int" where
  "ilog2 x = (if 1 \<le> x then bitlen \<lfloor>x\<rfloor> - 1 else - bitlen (\<lceil>1 / x\<rceil> - 1))"

definition round_even :: "rat \<Rightarrow> int" where
  "round_even y =
     (let f = \<lfloor>y\<rfloor>; d = y - of_int f
      in if d < 1 / 2 then f
         else if 1 / 2 < d then f + 1
         else if even f then f else f + 1)"

definition fl32 :: "rat \<Rightarrow> rat" where
  "fl32 x =
     (if x = 0 then 0
      else let e = max (ilog2 \<bar>x\<bar>) (- 126); q = pow2 (e - 23)
           in of_int (round_even (x / q)) * q)"

text \<open>The values a \<^verbatim>\<open>float\<close> can hold: those the rounding leaves alone.\<close>

definition is_float32 :: "rat \<Rightarrow> bool" where
  "is_float32 x \<longleftrightarrow> fl32 x = x"

definition f32_of_int :: "int \<Rightarrow> rat" where
  "f32_of_int n = fl32 (of_int n)"

definition f32_mul :: "rat \<Rightarrow> rat \<Rightarrow> rat" where
  "f32_mul x y = fl32 (x * y)"

definition f32_div :: "rat \<Rightarrow> rat \<Rightarrow> rat" where
  "f32_div x y = fl32 (x / y)"

text \<open>
  The conversion \<^verbatim>\<open>qint32(f)\<close> of a \<^verbatim>\<open>float\<close> drops the fractional part (truncation
  towards zero). When the truncated value does not fit the 32 bits the behaviour is
  undefined in C++, which the model reports as an error.
\<close>

datatype error = FloatToIntOverflow

definition trunc :: "rat \<Rightarrow> int" where
  "trunc x = (if 0 \<le> x then \<lfloor>x\<rfloor> else \<lceil>x\<rceil>)"

definition qint32_of_f32 :: "rat \<Rightarrow> error + 32 word" where
  "qint32_of_f32 x =
     (let t = trunc x
      in if - (2 ^ 31) \<le> t \<and> t < 2 ^ 31 then Inr (word_of_int t)
         else Inl FloatToIntOverflow)"

subsection \<open>The data stream\<close>

text \<open>
  \<^verbatim>\<open>QDataStream\<close> writes integers most significant byte first (its default byte order,
  which the source does not change). A \<^verbatim>\<open>QColor\<close> is written, for every stream version
  from 7 on (\<^verbatim>\<open>Serialize\<close> sets \<^verbatim>\<open>Qt_5_3\<close>, \<^verbatim>\<open>Deserialize\<close> keeps the default, which is
  later), as its specification in a \<^verbatim>\<open>qint8\<close> followed by the five 16-bit components
  alpha, red, green, blue and pad.
\<close>

type_synonym byte = "8 word"
type_synonym QByteArray = "byte list"

record QColor =
  cspec :: "8 word"
  alpha :: "16 word"
  red :: "16 word"
  green :: "16 word"
  blue :: "16 word"
  pad :: "16 word"

text \<open>
  The field \<open>cspec\<close> holds the numeric value of the enumeration \<^verbatim>\<open>QColor::Spec\<close>, as the
  \<^verbatim>\<open>qint8\<close> the stream operators convert it to and from. The default constructed
  \<^verbatim>\<open>QColor()\<close> is the invalid color (specification 0), alpha at its maximum.
\<close>

definition QColor_default :: QColor where
  "QColor_default =
     \<lparr>cspec = 0, alpha = 0xFFFF, red = 0, green = 0, blue = 0, pad = 0\<rparr>"

definition put_qint8 :: "8 word \<Rightarrow> QByteArray" where
  "put_qint8 w = [w]"

definition put_quint16 :: "16 word \<Rightarrow> QByteArray" where
  "put_quint16 w = [ucast (drop_bit 8 w), ucast w]"

definition put_qint32 :: "32 word \<Rightarrow> QByteArray" where
  "put_qint32 w =
     [ucast (drop_bit 24 w), ucast (drop_bit 16 w), ucast (drop_bit 8 w), ucast w]"

definition put_QColor :: "QColor \<Rightarrow> QByteArray" where
  "put_QColor c =
     put_qint8 (cspec c) @ put_quint16 (alpha c) @ put_quint16 (red c)
       @ put_quint16 (green c) @ put_quint16 (blue c) @ put_quint16 (pad c)"

text \<open>
  Reading: the stream holds the bytes not yet read and a status. A read of \<open>n\<close> bytes
  from fewer than \<open>n\<close> remaining bytes consumes what is left, yields zero and sets the
  status to \<^verbatim>\<open>ReadPastEnd\<close>; a status that is not \<^verbatim>\<open>Ok\<close> is never overwritten.
\<close>

datatype Status = Ok | ReadPastEnd

record QDataStream =
  device :: QByteArray
  status :: Status

definition setStatus :: "Status \<Rightarrow> QDataStream \<Rightarrow> QDataStream" where
  "setStatus st s = (if status s = Ok then s\<lparr>status := st\<rparr> else s)"

definition word_of_be :: "byte list \<Rightarrow> 'a::len word" where
  "word_of_be bs = foldl (\<lambda>w b. push_bit 8 w OR ucast b) 0 bs"

definition readBlock :: "nat \<Rightarrow> QDataStream \<Rightarrow> 'a::len word \<times> QDataStream" where
  "readBlock n s =
     (if n \<le> length (device s)
      then (word_of_be (take n (device s)), s\<lparr>device := drop n (device s)\<rparr>)
      else (0, setStatus ReadPastEnd (s\<lparr>device := []\<rparr>)))"

definition get_qint8 :: "QDataStream \<Rightarrow> 8 word \<times> QDataStream" where
  "get_qint8 s = readBlock 1 s"

definition get_quint16 :: "QDataStream \<Rightarrow> 16 word \<times> QDataStream" where
  "get_quint16 s = readBlock 2 s"

definition get_qint32 :: "QDataStream \<Rightarrow> 32 word \<times> QDataStream" where
  "get_qint32 s = readBlock 4 s"

definition get_QColor :: "QDataStream \<Rightarrow> QColor \<times> QDataStream" where
  "get_QColor s0 =
     (let (s, s1) = get_qint8 s0;
          (a, s2) = get_quint16 s1;
          (r, s3) = get_quint16 s2;
          (g, s4) = get_quint16 s3;
          (b, s5) = get_quint16 s4;
          (p, s6) = get_quint16 s5
      in (\<lparr>cspec = s, alpha = a, red = r, green = g, blue = b, pad = p\<rparr>, s6))"

subsection \<open>Serialize and Deserialize\<close>

record Brush =
  sizeRatio :: rat
  color :: QColor

text \<open>\<^verbatim>\<open>Brush()\<close>: the size ratio initialised to zero, the color default constructed.\<close>

definition Brush_default :: Brush where
  "Brush_default = \<lparr>sizeRatio = 0, color = QColor_default\<rparr>"

definition kPrecision :: int where
  "kPrecision = 100000"

definition Serialize :: "Brush \<Rightarrow> error + QByteArray" where
  "Serialize brush =
     (case qint32_of_f32 (f32_mul (sizeRatio brush) (f32_of_int kPrecision)) of
        Inl e \<Rightarrow> Inl e
      | Inr n \<Rightarrow> Inr (put_qint32 n @ put_QColor (color brush)))"

definition Deserialize :: "QByteArray \<Rightarrow> Brush" where
  "Deserialize data =
     (let stream = \<lparr>device = data, status = Ok\<rparr>;
          (size, stream1) = get_qint32 stream;
          (c, stream2) = get_QColor stream1;
          result = \<lparr>sizeRatio = f32_div (f32_of_int (sint size)) (f32_of_int kPrecision),
                    color = c\<rparr>
      in if status stream2 \<noteq> Ok then Brush_default else result)"

text \<open>The value of \<^verbatim>\<open>stream.status()\<close> that \<^verbatim>\<open>Deserialize\<close> tests before it returns.\<close>

definition Deserialize_status :: "QByteArray \<Rightarrow> Status" where
  "Deserialize_status data =
     (let stream = \<lparr>device = data, status = Ok\<rparr>;
          (size, stream1) = get_qint32 stream;
          (c, stream2) = get_QColor stream1
      in status stream2)"

subsection \<open>The editor\<close>

text \<open>
  \<^verbatim>\<open>PhotoEditorMode\<close> and \<^verbatim>\<open>PhotoModifications\<close> are declared in a header; the handlers
  use the two enumerations of the first and the fields \<^verbatim>\<open>angle\<close> and \<^verbatim>\<open>flipped\<close> of the
  second; its other fields are never read or written in this file and are left out.
  \<^verbatim>\<open>angle\<close> is a C++ \<^verbatim>\<open>int\<close>, modelled by \<^typ>\<open>int\<close>: the two agree as long as
  \<^verbatim>\<open>angle + 90\<close> stays below \<open>2\<^sup>3\<^sup>1\<close>.
\<close>

datatype Mode = Mode_Transform | Mode_Paint

datatype Action = Action_None | Action_Save | Action_Discard

record PhotoEditorMode =
  mode :: Mode
  action :: Action

record PhotoModifications =
  angle :: int
  flipped :: bool

text \<open>
  What a handler does to its collaborators: the calls on the content widget, the
  events fired on the two outward streams \<^verbatim>\<open>_done\<close> and \<^verbatim>\<open>_cancel\<close>, and the calls on
  the application's settings.
\<close>

datatype Effect =
    Content_applyModifications PhotoModifications
  | Content_applyBrush Brush
  | Content_save PhotoModifications
  | Done_fire_copy PhotoModifications
  | Cancel_fire
  | Settings_setPhotoEditorBrush QByteArray
  | App_saveSettingsDelayed

text \<open>
  Modelled from the spec: the settings store of \<^verbatim>\<open>core/core_settings.h\<close>, which is not
  part of the sources at hand. \<^verbatim>\<open>photoEditorBrush()\<close> returns the persisted byte
  sequence and \<^verbatim>\<open>setPhotoEditorBrush\<close> replaces it; the store is the field
  \<open>photoEditorBrush\<close> of the state.

  The state is what the handlers read and write: \<^verbatim>\<open>_modifications\<close>, the current value
  of the variable \<^verbatim>\<open>_mode\<close>, and the settings store. The subscription to \<^verbatim>\<open>_mode.value()\<close>,
  which passes each new mode on to the content, the controls and the color picker, is
  not part of a handler and is left out of the effects.
\<close>

record PhotoEditor =
  modifications :: PhotoModifications
  editor_mode :: PhotoEditorMode
  photoEditorBrush :: QByteArray

type_synonym outcome = "PhotoEditor \<times> Effect list"

text \<open>
  The conversion inside \<^verbatim>\<open>Serialize\<close> is the only place where a handler can leave the
  defined behaviour of C++. A handler that reaches it stops there: the model returns the
  error together with the state and the calls made up to that point.
\<close>

type_synonym stopped = "error \<times> outcome"

definition rotateRequests_handler :: "PhotoEditor \<Rightarrow> int \<Rightarrow> outcome" where
  "rotateRequests_handler s payload =
     (let m1 = (modifications s)\<lparr>angle := angle (modifications s) + 90\<rparr>;
          m2 = (if 360 \<le> angle m1 then m1\<lparr>angle := angle m1 - 360\<rparr> else m1)
      in (s\<lparr>modifications := m2\<rparr>, [Content_applyModifications m2]))"

definition flipRequests_handler :: "PhotoEditor \<Rightarrow> outcome" where
  "flipRequests_handler s =
     (let m = (modifications s)\<lparr>flipped := \<not> flipped (modifications s)\<rparr>
      in (s\<lparr>modifications := m\<rparr>, [Content_applyModifications m]))"

definition paintModeRequests_handler :: "PhotoEditor \<Rightarrow> outcome" where
  "paintModeRequests_handler s =
     (s\<lparr>editor_mode := \<lparr>mode = Mode_Paint, action = Action_None\<rparr>\<rparr>, [])"

definition save :: "PhotoEditor \<Rightarrow> outcome" where
  "save s = (s, [Content_save (modifications s), Done_fire_copy (modifications s)])"

definition doneRequests_handler :: "PhotoEditor \<Rightarrow> outcome" where
  "doneRequests_handler s =
     (let m = mode (editor_mode s)
      in if m = Mode_Paint
         then (s\<lparr>editor_mode := \<lparr>mode = Mode_Transform, action = Action_Save\<rparr>\<rparr>, [])
         else if m = Mode_Transform then save s
         else (s, []))"

definition cancelRequests_handler :: "PhotoEditor \<Rightarrow> outcome" where
  "cancelRequests_handler s =
     (let m = mode (editor_mode s)
      in if m = Mode_Paint
         then (s\<lparr>editor_mode := \<lparr>mode = Mode_Transform, action = Action_Discard\<rparr>\<rparr>, [])
         else if m = Mode_Transform then (s, [Cancel_fire])
         else (s, []))"

definition saveBrushRequests_handler :: "PhotoEditor \<Rightarrow> Brush \<Rightarrow> stopped + outcome" where
  "saveBrushRequests_handler s brush =
     (case Serialize brush of
        Inl e \<Rightarrow> Inl (e, (s, [Content_applyBrush brush]))
      | Inr serialized \<Rightarrow>
          if photoEditorBrush s \<noteq> serialized
          then Inr (s\<lparr>photoEditorBrush := serialized\<rparr>,
                    [Content_applyBrush brush,
                     Settings_setPhotoEditorBrush serialized,
                     App_saveSettingsDelayed])
          else Inr (s, [Content_applyBrush brush]))"

text \<open>The requests the editor subscribes to, and the handler of each.\<close>

datatype Request =
    Rotate int
  | Flip
  | PaintMode
  | Done
  | Cancel
  | SaveBrush Brush

fun handle :: "PhotoEditor \<Rightarrow> Request \<Rightarrow> stopped + outcome" where
  "handle s (Rotate payload) = Inr (rotateRequests_handler s payload)"
| "handle s Flip = Inr (flipRequests_handler s)"
| "handle s PaintMode = Inr (paintModeRequests_handler s)"
| "handle s Done = Inr (doneRequests_handler s)"
| "handle s Cancel = Inr (cancelRequests_handler s)"
| "handle s (SaveBrush brush) = saveBrushRequests_handler s brush"

text \<open>The calls a handler has made, whether it ran to its end or stopped.\<close>

definition effects_of :: "stopped + outcome \<Rightarrow> Effect list" where
  "effects_of r = (case r of Inl (e, (s, effs)) \<Rightarrow> effs | Inr (s, effs) \<Rightarrow> effs)"

text \<open>The invariant of the rotation angle: one of 0, 90, 180, 270.\<close>

definition angle_ok :: "PhotoEditor \<Rightarrow> bool" where
  "angle_ok s \<longleftrightarrow>
     0 \<le> angle (modifications s) \<and> angle (modifications s) < 360
       \<and> angle (modifications s) mod 90 = 0"

text \<open>
  Modelled from the spec: the member \<^verbatim>\<open>_mode\<close> is declared in the header, which is not
  part of the sources at hand; the editor starts in transform mode with no pending
  action. The constructor takes the modifications as they are passed in, and the
  settings hold whatever was persisted before.
\<close>

definition PhotoEditor_init :: "PhotoModifications \<Rightarrow> QByteArray \<Rightarrow> PhotoEditor" where
  "PhotoEditor_init m persisted =
     \<lparr>modifications = m,
      editor_mode = \<lparr>mode = Mode_Transform, action = Action_None\<rparr>,
      photoEditorBrush = persisted\<rparr>"

section \<open>Properties of the data stream\<close>

text \<open>What is written is read back, and the stream moves past it.\<close>

lemma word_of_be_put_qint32: "word_of_be (put_qint32 w) = w"
proof (rule bit_word_eqI)
  fix n :: nat
  assume "n < LENGTH(32)"
  then consider "n < 8" | "8 \<le> n" "n < 16" | "16 \<le> n" "n < 24" | "24 \<le> n" "n < 32"
    by fastforce
  then show "bit (word_of_be (put_qint32 w) :: 32 word) n \<longleftrightarrow> bit w n"
    by cases (auto simp: word_of_be_def put_qint32_def bit_simps)
qed

lemma word_of_be_put_quint16: "word_of_be (put_quint16 w) = w"
proof (rule bit_word_eqI)
  fix n :: nat
  assume "n < LENGTH(16)"
  then consider "n < 8" | "8 \<le> n" "n < 16"
    by fastforce
  then show "bit (word_of_be (put_quint16 w) :: 16 word) n \<longleftrightarrow> bit w n"
    by cases (auto simp: word_of_be_def put_quint16_def bit_simps)
qed

lemma word_of_be_put_qint8: "word_of_be (put_qint8 w) = w"
  unfolding word_of_be_def put_qint8_def
  by simp

lemma length_put [simp]:
  "length (put_qint32 w) = 4" "length (put_quint16 v) = 2" "length (put_qint8 u) = 1"
  by (simp_all add: put_qint32_def put_quint16_def put_qint8_def)

lemma readBlock_append:
  "length bs = n \<Longrightarrow>
   readBlock n \<lparr>device = bs @ rest, status = st\<rparr> = (word_of_be bs, \<lparr>device = rest, status = st\<rparr>)"
  by (simp add: readBlock_def)

lemma get_qint32_put:
  "get_qint32 \<lparr>device = put_qint32 w @ rest, status = st\<rparr> = (w, \<lparr>device = rest, status = st\<rparr>)"
  by (simp add: get_qint32_def readBlock_append word_of_be_put_qint32)

lemma get_quint16_put:
  "get_quint16 \<lparr>device = put_quint16 w @ rest, status = st\<rparr> = (w, \<lparr>device = rest, status = st\<rparr>)"
  by (simp add: get_quint16_def readBlock_append word_of_be_put_quint16)

lemma get_qint8_put:
  "get_qint8 \<lparr>device = put_qint8 w @ rest, status = st\<rparr> = (w, \<lparr>device = rest, status = st\<rparr>)"
  by (simp add: get_qint8_def readBlock_append word_of_be_put_qint8)

lemma get_QColor_put:
  "get_QColor \<lparr>device = put_QColor c @ rest, status = st\<rparr> = (c, \<lparr>device = rest, status = st\<rparr>)"
  by (simp add: get_QColor_def put_QColor_def get_quint16_put get_qint8_put)

lemma length_put_QColor: "length (put_QColor c) = 11"
  by (simp add: put_QColor_def)

text \<open>A read succeeds exactly when the status is still good and enough bytes remain.\<close>

lemma readBlock_status:
  "status (snd (readBlock n s :: 'a::len word \<times> QDataStream)) = Ok
     \<longleftrightarrow> status s = Ok \<and> n \<le> length (device s)"
  by (simp add: readBlock_def setStatus_def)

lemma readBlock_length:
  "length (device (snd (readBlock n s :: 'a::len word \<times> QDataStream))) = length (device s) - n"
  by (simp add: readBlock_def setStatus_def)

lemma get_QColor_status:
  "status (snd (get_QColor s)) = Ok \<longleftrightarrow> status s = Ok \<and> 11 \<le> length (device s)"
  unfolding get_QColor_def get_qint8_def get_quint16_def
  by (simp add: split_def Let_def readBlock_status readBlock_length) linarith

lemma Deserialize_status_iff:
  "Deserialize_status data = Ok \<longleftrightarrow> 15 \<le> length data"
  unfolding Deserialize_status_def get_qint32_def
  by (simp add: split_def Let_def get_QColor_status readBlock_status readBlock_length) linarith

lemma Deserialize_fail:
  "Deserialize_status data \<noteq> Ok \<Longrightarrow> Deserialize data = Brush_default"
  unfolding Deserialize_status_def Deserialize_def
  by (simp add: split_def Let_def)


section \<open>Properties of the rounding\<close>

lemma pow2_powi: "pow2 e = 2 powi e"
  by (simp add: pow2_def power_int_def inverse_eq_divide power_one_over)

lemma pow2_pos: "0 < pow2 e"
  by (simp add: pow2_powi)

lemma pow2_mono: "a \<le> b \<Longrightarrow> pow2 a \<le> pow2 b"
  by (simp add: pow2_powi power_int_increasing)

lemma pow2_less_cancel: "pow2 a < pow2 b \<Longrightarrow> a < b"
  using pow2_mono [of b a] by (cases "a < b") auto

lemma ilog2_le: "0 < x \<Longrightarrow> pow2 (ilog2 x) \<le> x"
proof (cases "1 \<le> x")
  case True
  then have m: "0 < \<lfloor>x\<rfloor>" by linarith
  then have "1 \<le> bitlen \<lfloor>x\<rfloor>" using bitlen_eq_zero_iff [of "\<lfloor>x\<rfloor>"] bitlen_nonneg [of "\<lfloor>x\<rfloor>"] by linarith
  then have "pow2 (ilog2 x) = 2 ^ nat (bitlen \<lfloor>x\<rfloor> - 1)"
    using True by (simp add: ilog2_def pow2_def)
  also have "\<dots> = of_int (2 ^ nat (bitlen \<lfloor>x\<rfloor> - 1))" by simp
  also have "\<dots> \<le> of_int \<lfloor>x\<rfloor>"
    using bitlen_bounds [OF m] by (simp only: of_int_le_iff)
  also have "\<dots> \<le> x" by simp
  finally show ?thesis .
next
  case False
  assume x: "0 < x"
  let ?n = "\<lceil>1 / x\<rceil> - 1"
  from False x have "1 < 1 / x" by (simp add: field_simps)
  then have n: "0 < ?n" by linarith
  have "1 / x \<le> of_int (?n + 1)" by simp
  also have "of_int (?n + 1) \<le> (of_int (2 ^ nat (bitlen ?n)) :: rat)"
    using bitlen_bounds [OF n] by (simp only: of_int_le_iff) linarith
  finally have "1 / x \<le> 2 ^ nat (bitlen ?n)" by simp
  then have "1 / 2 ^ nat (bitlen ?n) \<le> x"
    using x by (simp add: field_simps)
  moreover have "pow2 (ilog2 x) = 1 / 2 ^ nat (bitlen ?n)"
    using False bitlen_nonneg [of ?n] by (auto simp: ilog2_def pow2_def)
  ultimately show ?thesis by simp
qed

lemma ilog2_less: "0 < x \<Longrightarrow> x < pow2 b \<Longrightarrow> ilog2 x < b"
  using ilog2_le [of x] pow2_less_cancel [of "ilog2 x" b] by linarith

lemma ilog2_gt:
  assumes "0 < x"
  shows "x < pow2 (ilog2 x + 1)"
proof (cases "1 \<le> x")
  case True
  then have m: "0 < \<lfloor>x\<rfloor>" by linarith
  then have b: "1 \<le> bitlen \<lfloor>x\<rfloor>"
    using bitlen_eq_zero_iff [of "\<lfloor>x\<rfloor>"] bitlen_nonneg [of "\<lfloor>x\<rfloor>"] by linarith
  have "\<lfloor>x\<rfloor> + 1 \<le> 2 ^ nat (bitlen \<lfloor>x\<rfloor>)"
    using bitlen_bounds [OF m] by linarith
  then have "(of_int (\<lfloor>x\<rfloor> + 1) :: rat) \<le> of_int (2 ^ nat (bitlen \<lfloor>x\<rfloor>))"
    by (simp only: of_int_le_iff)
  moreover have "x < of_int (\<lfloor>x\<rfloor> + 1)" by linarith
  ultimately have "x < 2 ^ nat (bitlen \<lfloor>x\<rfloor>)" by simp
  moreover have "pow2 (ilog2 x + 1) = 2 ^ nat (bitlen \<lfloor>x\<rfloor>)"
    using True b by (simp add: ilog2_def pow2_def)
  ultimately show ?thesis by simp
next
  case False
  let ?n = "\<lceil>1 / x\<rceil> - 1"
  from False assms have "1 < 1 / x" by (simp add: field_simps)
  then have n: "0 < ?n" by linarith
  then have b: "1 \<le> bitlen ?n"
    using bitlen_eq_zero_iff [of ?n] bitlen_nonneg [of ?n] by linarith
  have "(of_int (2 ^ nat (bitlen ?n - 1)) :: rat) \<le> of_int ?n"
    using bitlen_bounds [OF n] by (simp only: of_int_le_iff)
  moreover have "of_int ?n < 1 / x" by linarith
  ultimately have "2 ^ nat (bitlen ?n - 1) < 1 / x" by simp
  then have "x < 1 / 2 ^ nat (bitlen ?n - 1)"
    using assms by (simp add: field_simps)
  moreover have "pow2 (ilog2 x + 1) = 1 / 2 ^ nat (bitlen ?n - 1)"
  proof (cases "bitlen ?n = 1")
    case True
    with False show ?thesis by (simp add: ilog2_def pow2_def)
  next
    case False
    with b have "1 < bitlen ?n" by simp
    with \<open>\<not> 1 \<le> x\<close> show ?thesis
      by (simp add: ilog2_def pow2_def algebra_simps)
  qed
  ultimately show ?thesis by simp
qed

lemma round_even_of_int: "round_even (of_int m) = m"
  by (simp add: round_even_def)

lemma round_even_err: "\<bar>of_int (round_even y) - y\<bar> \<le> 1 / 2"
proof -
  have "of_int \<lfloor>y\<rfloor> \<le> y" "y < of_int \<lfloor>y\<rfloor> + 1" by linarith+
  then show ?thesis
    by (auto simp: round_even_def Let_def split: if_splits)
qed

lemma fl32_exact:
  assumes "x \<noteq> 0" and "x = of_int m * pow2 (max (ilog2 \<bar>x\<bar>) (- 126) - 23)"
  shows "fl32 x = x"
proof -
  let ?q = "pow2 (max (ilog2 \<bar>x\<bar>) (- 126) - 23)"
  have q: "?q \<noteq> 0" using pow2_pos [of "max (ilog2 \<bar>x\<bar>) (- 126) - 23"] by simp
  have "x / ?q = of_int m" using assms(2) q by (simp add: field_simps)
  then have "of_int (round_even (x / ?q)) * ?q = x"
    using assms(2) by (simp add: round_even_of_int)
  then show ?thesis using assms(1) by (simp add: fl32_def Let_def)
qed

lemma fl32_of_int:
  assumes "0 \<le> k" "k < 2 ^ 24"
  shows "fl32 (of_int k) = of_int k"
proof (cases "k = 0")
  case True
  then show ?thesis by (simp add: fl32_def)
next
  case False
  with assms have k: "0 < k" by simp
  let ?x = "of_int k :: rat"
  have x: "0 < ?x" "1 \<le> ?x" using k by simp_all
  have "?x < pow2 24" using assms(2) by (simp add: pow2_def)
  then have up: "ilog2 ?x < 24" using ilog2_less x(1) by blast
  have "0 \<le> ilog2 ?x"
    using x(2) k bitlen_eq_zero_iff [of k] bitlen_nonneg [of k] by (simp add: ilog2_def)
  then have e: "max (ilog2 \<bar>?x\<bar>) (- 126) = ilog2 ?x" using k by simp
  define d where "d = nat (23 - ilog2 ?x)"
  have p: "pow2 (ilog2 ?x - 23) = 1 / 2 ^ d"
    using up by (cases "ilog2 ?x = 23") (simp_all add: pow2_def d_def)
  have "?x = of_int (k * 2 ^ d) * pow2 (max (ilog2 \<bar>?x\<bar>) (- 126) - 23)"
    unfolding e p by simp
  moreover have "?x \<noteq> 0" using k by simp
  ultimately show ?thesis by (rule fl32_exact [rotated])
qed

lemma fl32_err:
  assumes "0 \<le> x" "x < 16"
  shows "\<bar>fl32 x - x\<bar> \<le> 1 / 2 ^ 21"
proof (cases "x = 0")
  case True
  then show ?thesis by (simp add: fl32_def)
next
  case False
  with assms have x: "0 < x" by simp
  define e where "e = max (ilog2 \<bar>x\<bar>) (- 126)"
  define q where "q = pow2 (e - 23)"
  have "x < pow2 4" using assms(2) by (simp add: pow2_def)
  then have "ilog2 x < 4" using ilog2_less x by blast
  then have "e - 23 \<le> - 20" using x by (simp add: e_def)
  then have "q \<le> pow2 (- 20)" unfolding q_def by (rule pow2_mono)
  then have q20: "q \<le> 1 / 2 ^ 20" by (simp add: pow2_def)
  have qpos: "0 < q" unfolding q_def by (rule pow2_pos)
  have f: "fl32 x = of_int (round_even (x / q)) * q"
    using False by (simp add: fl32_def Let_def e_def q_def)
  have "fl32 x - x = (of_int (round_even (x / q)) - x / q) * q"
    using qpos by (simp add: f field_simps)
  then have "\<bar>fl32 x - x\<bar> = \<bar>of_int (round_even (x / q)) - x / q\<bar> * q"
    using qpos by (simp add: abs_mult)
  also have "\<dots> \<le> (1 / 2) * q"
    using round_even_err [of "x / q"] qpos by (simp add: mult_right_mono)
  also have "\<dots> \<le> (1 / 2) * (1 / 2 ^ 20)"
    using q20 by simp
  finally show ?thesis by simp
qed

lemma round_even_nonneg: "0 \<le> y \<Longrightarrow> 0 \<le> round_even y"
  by (simp add: round_even_def Let_def)

lemma fl32_nonneg:
  assumes "0 \<le> x"
  shows "0 \<le> fl32 x"
proof (cases "x = 0")
  case True
  then show ?thesis by (simp add: fl32_def)
next
  case False
  define q where "q = pow2 (max (ilog2 \<bar>x\<bar>) (- 126) - 23)"
  have q: "0 < q" unfolding q_def by (rule pow2_pos)
  then have "0 \<le> x / q" using assms by simp
  then have "0 \<le> round_even (x / q)" by (rule round_even_nonneg)
  then have "0 \<le> of_int (round_even (x / q)) * q" using q by simp
  then show ?thesis using False by (simp add: fl32_def Let_def q_def)
qed

lemma fl32_err_pow2:
  assumes "0 \<le> x" and "x < pow2 b" and "- 125 \<le> b"
  shows "\<bar>fl32 x - x\<bar> \<le> pow2 (b - 24) / 2"
proof (cases "x = 0")
  case True
  then show ?thesis using pow2_pos [of "b - 24"] by (simp add: fl32_def)
next
  case False
  with assms have x: "0 < x" by simp
  define e where "e = max (ilog2 \<bar>x\<bar>) (- 126)"
  define q where "q = pow2 (e - 23)"
  have "ilog2 x < b" using ilog2_less x assms(2) by blast
  then have "e - 23 \<le> b - 24" using x assms(3) by (simp add: e_def)
  then have qb: "q \<le> pow2 (b - 24)" unfolding q_def by (rule pow2_mono)
  have qpos: "0 < q" unfolding q_def by (rule pow2_pos)
  have f: "fl32 x = of_int (round_even (x / q)) * q"
    using False by (simp add: fl32_def Let_def e_def q_def)
  have "fl32 x - x = (of_int (round_even (x / q)) - x / q) * q"
    using qpos by (simp add: f field_simps)
  then have "\<bar>fl32 x - x\<bar> = \<bar>of_int (round_even (x / q)) - x / q\<bar> * q"
    using qpos by (simp add: abs_mult)
  also have "\<dots> \<le> (1 / 2) * q"
    using round_even_err [of "x / q"] qpos by (simp add: mult_right_mono)
  also have "\<dots> \<le> (1 / 2) * pow2 (b - 24)"
    using qb by simp
  finally show ?thesis by simp
qed

lemma fl32_err_product:
  assumes "0 \<le> x" and "x < 1000000"
  shows "\<bar>fl32 x - x\<bar> \<le> 1 / 32"
proof -
  have "x < pow2 20" using assms(2) by (simp add: pow2_def)
  from fl32_err_pow2 [OF assms(1) this] show ?thesis by (simp add: pow2_def)
qed

section \<open>The brush codec\<close>

lemma f32_of_int_kPrecision: "f32_of_int kPrecision = 100000"
proof -
  have "fl32 (of_int 100000) = of_int 100000"
    by (rule fl32_of_int) simp_all
  then show ?thesis by (simp add: f32_of_int_def kPrecision_def)
qed

lemma Serialize_in_range:
  assumes "- (2 ^ 31) \<le> trunc (fl32 (sizeRatio b * 100000))"
    and "trunc (fl32 (sizeRatio b * 100000)) < 2 ^ 31"
  shows "Serialize b =
    Inr (put_qint32 (word_of_int (trunc (fl32 (sizeRatio b * 100000)))) @ put_QColor (color b))"
  using assms
  by (simp add: Serialize_def qint32_of_f32_def f32_mul_def f32_of_int_kPrecision Let_def)

lemma sint_qint32:
  "- (2 ^ 31) \<le> t \<Longrightarrow> t < 2 ^ 31 \<Longrightarrow> sint (word_of_int t :: 32 word) = t"
  by (simp add: sint_sbintrunc' signed_take_bit_int_eq_self)

lemma trunc_of_int: "trunc (of_int k) = k"
  by (simp add: trunc_def)

lemma trunc_nonneg: "0 \<le> x \<Longrightarrow> trunc x = \<lfloor>x\<rfloor>"
  by (simp add: trunc_def)

lemma Deserialize_put:
  "Deserialize (put_qint32 n @ put_QColor c) =
     \<lparr>sizeRatio = f32_div (f32_of_int (sint n)) (f32_of_int kPrecision), color = c\<rparr>"
  by (simp add: Deserialize_def get_qint32_put get_QColor_put [of _ "[]", simplified])

text \<open>
  The size ratio \<open>3/128 = 0.0234375\<close> is a \<^verbatim>\<open>float\<close>, and so is its product with
  \<open>100000\<close>, \<open>2343.75\<close>. \<^verbatim>\<open>Serialize\<close> stores \<open>2343\<close> (the bytes \<open>00 00 09 27\<close>), where
  rounding would give \<open>2344\<close>: the conversion to \<^verbatim>\<open>qint32\<close> truncates.
\<close>

theorem Serialize_round_counterexample:
  "Serialize \<lparr>sizeRatio = 3 / 128, color = QColor_default\<rparr>
     = Inr [0, 0, 9, 39, 0, 255, 255, 0, 0, 0, 0, 0, 0, 0, 0]
   \<and> sint (fst (get_qint32
        \<lparr>device = [0, 0, 9, 39, 0, 255, 255, 0, 0, 0, 0, 0, 0, 0, 0], status = Ok\<rparr>)) = 2343
   \<and> round (3 / 128 * 100000 :: rat) = 2344
   \<and> sint (fst (get_qint32
        \<lparr>device = [0, 0, 9, 39, 0, 255, 255, 0, 0, 0, 0, 0, 0, 0, 0], status = Ok\<rparr>))
       \<noteq> round (3 / 128 * 100000 :: rat)
   \<and> is_float32 (3 / 128)"
  by code_simp

text \<open>
  C1, as the code has it: for every brush whose single precision product
  \<^verbatim>\<open>sizeRatio * kPrecision\<close>, truncated towards zero, fits a 32-bit signed integer,
  \<^verbatim>\<open>Serialize\<close> returns 15 bytes: first that truncated value as a 4-byte signed integer,
  which \<^verbatim>\<open>QDataStream\<close> reads back unchanged, then the color as \<^verbatim>\<open>QDataStream\<close> writes a
  \<^verbatim>\<open>QColor\<close>. The result is a function of the brush alone.
\<close>

theorem Serialize_layout:
  assumes "- (2 ^ 31) \<le> trunc (fl32 (sizeRatio b * 100000))"
    and "trunc (fl32 (sizeRatio b * 100000)) < 2 ^ 31"
  shows "\<exists>n. Serialize b = Inr (put_qint32 n @ put_QColor (color b))
           \<and> sint n = trunc (fl32 (sizeRatio b * 100000))
           \<and> length (put_qint32 n @ put_QColor (color b)) = 15
           \<and> get_qint32 \<lparr>device = put_qint32 n @ put_QColor (color b), status = Ok\<rparr>
               = (n, \<lparr>device = put_QColor (color b), status = Ok\<rparr>)"
proof -
  let ?n = "word_of_int (trunc (fl32 (sizeRatio b * 100000))) :: 32 word"
  have "Serialize b = Inr (put_qint32 ?n @ put_QColor (color b))"
    using assms by (rule Serialize_in_range)
  moreover have "sint ?n = trunc (fl32 (sizeRatio b * 100000))"
    using assms by (rule sint_qint32)
  moreover have "length (put_qint32 ?n @ put_QColor (color b)) = 15"
    by (simp add: length_put_QColor)
  ultimately show ?thesis
    using get_qint32_put [of ?n "put_QColor (color b)" Ok] by blast
qed

theorem Serialize_layout_witness:
  "- (2 ^ 31) \<le> trunc (fl32 (sizeRatio \<lparr>sizeRatio = 3 / 128, color = QColor_default\<rparr> * 100000))
   \<and> trunc (fl32 (sizeRatio \<lparr>sizeRatio = 3 / 128, color = QColor_default\<rparr> * 100000)) < 2 ^ 31
   \<and> (\<exists>n. Serialize \<lparr>sizeRatio = 3 / 128, color = QColor_default\<rparr>
              = Inr (put_qint32 n @ put_QColor QColor_default)
            \<and> sint n = 2343)"
proof -
  let ?b = "\<lparr>sizeRatio = 3 / 128, color = QColor_default\<rparr>"
  have t: "trunc (fl32 (sizeRatio ?b * 100000)) = 2343" by code_simp
  have h1: "- (2 ^ 31) \<le> trunc (fl32 (sizeRatio ?b * 100000))" unfolding t by simp
  have h2: "trunc (fl32 (sizeRatio ?b * 100000)) < 2 ^ 31" unfolding t by simp
  from Serialize_layout [OF h1 h2] t h1 h2 show ?thesis by auto
qed

text \<open>
  The size ratios a brush holds are \<^verbatim>\<open>float\<close>s, and a multiple of \<open>1/100000\<close> is a
  \<^verbatim>\<open>float\<close> only when it is a multiple of \<open>1/32\<close>. The brush at \<open>0.00475\<close> holds the
  \<^verbatim>\<open>float\<close> nearest to it, which lies just below and is also what \<^verbatim>\<open>Deserialize\<close> returns
  for the stored integer \<open>475\<close>. Its product with \<open>100000\<close> lies below \<open>475\<close> and is
  truncated to \<open>474\<close>: what is read back is more than \<open>1/100000\<close> away from what was
  written.
\<close>

theorem Deserialize_Serialize_counterexample:
  "is_float32 (10200547 / 2147483648)
   \<and> fl32 (475 / 100000) = 10200547 / 2147483648
   \<and> (0::rat) \<le> 10200547 / 2147483648 \<and> (10200547 / 2147483648 :: rat) < 10
   \<and> Deserialize [0, 0, 1, 219, 0, 255, 255, 0, 0, 0, 0, 0, 0, 0, 0]
       = \<lparr>sizeRatio = 10200547 / 2147483648, color = QColor_default\<rparr>
   \<and> Serialize \<lparr>sizeRatio = 10200547 / 2147483648, color = QColor_default\<rparr>
       = Inr [0, 0, 1, 218, 0, 255, 255, 0, 0, 0, 0, 0, 0, 0, 0]
   \<and> Deserialize [0, 0, 1, 218, 0, 255, 255, 0, 0, 0, 0, 0, 0, 0, 0]
       = \<lparr>sizeRatio = 19881 / 4194304, color = QColor_default\<rparr>
   \<and> \<not> \<bar>19881 / 4194304 - 10200547 / 2147483648 :: rat\<bar> \<le> 1 / 100000"
  by code_simp

text \<open>
  C2, as the code has it: for every brush whose size ratio is a \<^verbatim>\<open>float\<close> in \<open>[0, 10)\<close>,
  \<^verbatim>\<open>Serialize\<close> succeeds and \<^verbatim>\<open>Deserialize\<close> of its result has the same color and, as size
  ratio, the \<^verbatim>\<open>float\<close> nearest to the stored integer over \<open>100000\<close>. That ratio is less
  than \<open>11/1000000\<close> away from the original and at most \<open>1/1000000\<close> above it, and it is
  the original when the original is an exact multiple of \<open>1/100000\<close>.
\<close>

theorem Deserialize_Serialize:
  assumes "is_float32 (sizeRatio b)" and "0 \<le> sizeRatio b" and "sizeRatio b < 10"
  shows "\<exists>bytes. Serialize b = Inr bytes
           \<and> color (Deserialize bytes) = color b
           \<and> sizeRatio (Deserialize bytes)
               = fl32 (of_int (trunc (fl32 (sizeRatio b * 100000))) / 100000)
           \<and> \<bar>sizeRatio (Deserialize bytes) - sizeRatio b\<bar> < 11 / 1000000
           \<and> sizeRatio (Deserialize bytes) \<le> sizeRatio b + 1 / 1000000
           \<and> ((\<exists>k. sizeRatio b = of_int k / 100000) \<longrightarrow> Deserialize bytes = b)"
proof -
  define x where "x = sizeRatio b"
  define p where "p = fl32 (x * 100000)"
  define n where "n = trunc p"
  have x: "0 \<le> x" "x < 10" using assms(2,3) by (simp_all add: x_def)
  have prod: "0 \<le> x * 100000" "x * 100000 < 1000000" using x by simp_all
  have perr: "\<bar>p - x * 100000\<bar> \<le> 1 / 32"
    unfolding p_def using prod by (rule fl32_err_product)
  have p0: "0 \<le> p" unfolding p_def using prod(1) by (rule fl32_nonneg)
  then have nfl: "n = \<lfloor>p\<rfloor>" by (simp add: n_def trunc_nonneg)
  have np: "of_int n \<le> p" "p < of_int n + 1" unfolding nfl by linarith+
  have n0: "0 \<le> n" using p0 by (simp add: nfl)
  have "of_int n < (1000001 :: rat)" using np(1) perr prod(2) by linarith
  then have "n < 1000001" by (simp only: of_int_less_iff [symmetric, where 'a = rat])
  then have n1: "n \<le> 1000000" by simp
  let ?w = "word_of_int n :: 32 word"
  let ?bytes = "put_qint32 ?w @ put_QColor (color b)"
  have ser: "Serialize b = Inr ?bytes"
    using Serialize_in_range [of b] n0 n1
    unfolding n_def p_def x_def by simp
  have sn: "sint ?w = n" using n0 n1 by (intro sint_qint32) simp_all
  have fn: "f32_of_int (sint ?w) = of_int n"
    unfolding sn f32_of_int_def using n0 n1 by (intro fl32_of_int) simp_all
  define y where "y = fl32 (of_int n / 100000)"
  have des: "Deserialize ?bytes = \<lparr>sizeRatio = y, color = color b\<rparr>"
    by (simp add: Deserialize_put fn f32_of_int_kPrecision f32_div_def y_def)
  have nq: "0 \<le> (of_int n / 100000 :: rat)" "(of_int n / 100000 :: rat) < 16"
    using n0 n1 by simp_all
  have yerr: "\<bar>y - of_int n / 100000\<bar> \<le> 1 / 2 ^ 21"
    unfolding y_def using nq by (rule fl32_err)
  then have yerr': "\<bar>y - of_int n / 100000\<bar> \<le> 1 / 2097152" by simp
  have bound: "\<bar>y - x\<bar> < 11 / 1000000"
    using yerr' np perr by linarith
  have above: "y \<le> x + 1 / 1000000"
    using yerr' np perr by linarith
  have exact: "(\<exists>k. x = of_int k / 100000) \<longrightarrow> Deserialize ?bytes = b"
  proof
    assume "\<exists>k. x = of_int k / 100000"
    then obtain k :: int where k: "x = of_int k / 100000" by blast
    with x have kr: "0 \<le> k" "k < 1000000" by (simp_all add: field_simps)
    have "x * 100000 = of_int k" using k by simp
    moreover have "fl32 (of_int k) = of_int k" using kr by (intro fl32_of_int) simp_all
    ultimately have "p = of_int k" by (simp add: p_def)
    then have "n = k" by (simp add: n_def trunc_of_int)
    then have "y = fl32 x" by (simp add: y_def k)
    also have "\<dots> = x" using assms(1) by (simp add: is_float32_def x_def)
    finally show "Deserialize ?bytes = b" by (simp add: des x_def)
  qed
  from ser des bound above exact show ?thesis
    by (auto simp: x_def y_def n_def p_def)
qed

theorem Deserialize_Serialize_witness:
  "is_float32 (sizeRatio \<lparr>sizeRatio = 3 / 32, color = QColor_default\<rparr>)
   \<and> (0::rat) \<le> sizeRatio \<lparr>sizeRatio = 3 / 32, color = QColor_default\<rparr>
   \<and> sizeRatio \<lparr>sizeRatio = 3 / 32, color = QColor_default\<rparr> < 10
   \<and> sizeRatio \<lparr>sizeRatio = 3 / 32, color = QColor_default\<rparr> = of_int 9375 / 100000
   \<and> (\<exists>bytes. Serialize \<lparr>sizeRatio = 3 / 32, color = QColor_default\<rparr> = Inr bytes
         \<and> Deserialize bytes = \<lparr>sizeRatio = 3 / 32, color = QColor_default\<rparr>)"
proof -
  let ?b = "\<lparr>sizeRatio = 3 / 32, color = QColor_default\<rparr>"
  have h0: "is_float32 (sizeRatio ?b)" by code_simp
  have h1: "0 \<le> sizeRatio ?b" by simp
  have h2: "sizeRatio ?b < 10" by simp
  have h3: "sizeRatio ?b = of_int 9375 / 100000" by simp
  then have h4: "\<exists>k. sizeRatio ?b = of_int k / 100000" by (rule exI)
  from Deserialize_Serialize [OF h0 h1 h2] h4 h0 h1 h2 h3 show ?thesis by blast
qed

text \<open>
  C3: \<^verbatim>\<open>Deserialize\<close> is a total function of the byte sequence. Parsing fails (the stream
  status is not \<^verbatim>\<open>Ok\<close>) exactly for the sequences shorter than the 15 bytes of a brush,
  the empty one among them, and for each of these the result is the default brush.
\<close>

theorem Deserialize_malformed:
  "(Deserialize_status data \<noteq> Ok \<longleftrightarrow> length data < 15)
   \<and> (length data < 15 \<longrightarrow> Deserialize data = Brush_default)
   \<and> Deserialize [] = Brush_default"
  using Deserialize_status_iff [of data] Deserialize_fail [of data] Deserialize_fail [of "[]"]
    Deserialize_status_iff [of "[]"]
  by auto

theorem Deserialize_malformed_witness:
  "length [0, 0, 9, 39, 0, 255 :: byte] < 15
   \<and> Deserialize_status [0, 0, 9, 39, 0, 255] \<noteq> Ok
   \<and> Deserialize [0, 0, 9, 39, 0, 255] = Brush_default"
  using Deserialize_malformed [of "[0, 0, 9, 39, 0, 255]"] by simp

section \<open>The request handlers\<close>

subsection \<open>Rotation\<close>

lemma rotate_mod:
  assumes "0 \<le> a" and "a < (360::int)"
  shows "(if 360 \<le> a + 90 then a + 90 - 360 else a + 90) = (a + 90) mod 360"
proof (cases "360 \<le> a + 90")
  case True
  have "(a + 90) mod 360 = (a + 90 - 360) mod 360"
    by (simp only: minus_mod_self2)
  also have "\<dots> = a + 90 - 360"
    using True assms by (intro mod_pos_pos_trivial) simp_all
  finally show ?thesis using True by simp
next
  case False
  then have "(a + 90) mod 360 = a + 90"
    using assms by (intro mod_pos_pos_trivial) simp_all
  with False show ?thesis by simp
qed

lemma mod_90_add: "(a::int) mod 90 = 0 \<Longrightarrow> (a + 90) mod 90 = 0"
  by (simp add: mod_eq_0_iff_dvd)

lemma mod_90_wrap: "(a::int) mod 90 = 0 \<Longrightarrow> (a + 90 - 360) mod 90 = 0"
proof -
  assume "a mod 90 = 0"
  then have "90 dvd a" by (simp add: mod_eq_0_iff_dvd)
  moreover have "(90::int) dvd 270" by simp
  ultimately have "90 dvd a - 270" by (rule dvd_diff)
  then show ?thesis by (simp add: mod_eq_0_iff_dvd)
qed

lemma rotate_angle_eq:
  "angle (modifications (fst (rotateRequests_handler s p))) =
     (if 360 \<le> angle (modifications s) + 90 then angle (modifications s) + 90 - 360
      else angle (modifications s) + 90)"
  by (simp add: rotateRequests_handler_def Let_def)

lemma rotate_frame:
  "editor_mode (fst (rotateRequests_handler s p)) = editor_mode s"
  "photoEditorBrush (fst (rotateRequests_handler s p)) = photoEditorBrush s"
  "flipped (modifications (fst (rotateRequests_handler s p))) = flipped (modifications s)"
  by (simp_all add: rotateRequests_handler_def Let_def)

lemma rotate_angle_ok:
  assumes "angle_ok s"
  shows "angle_ok (fst (rotateRequests_handler s p))"
proof -
  let ?a = "angle (modifications s)"
  from assms have a: "0 \<le> ?a" "?a < 360" "?a mod 90 = 0"
    by (simp_all add: angle_ok_def)
  show ?thesis
  proof (cases "360 \<le> ?a + 90")
    case True
    with a mod_90_wrap [of ?a] show ?thesis
      unfolding angle_ok_def rotate_angle_eq by simp
  next
    case False
    with a mod_90_add [of ?a] show ?thesis
      unfolding angle_ok_def rotate_angle_eq by simp
  qed
qed

lemma handle_angle_ok:
  assumes "angle_ok s" and "handle s r = Inr (s', effs)"
  shows "angle_ok s'"
proof (cases r)
  case (Rotate p)
  with assms(2) have "s' = fst (rotateRequests_handler s p)" by auto
  with assms(1) show ?thesis by (simp add: rotate_angle_ok)
next
  case Flip
  with assms show ?thesis
    by (auto simp: flipRequests_handler_def angle_ok_def Let_def)
next
  case PaintMode
  with assms show ?thesis
    by (auto simp: paintModeRequests_handler_def angle_ok_def)
next
  case Done
  with assms show ?thesis
    by (auto simp: doneRequests_handler_def save_def angle_ok_def Let_def split: if_splits)
next
  case Cancel
  with assms show ?thesis
    by (auto simp: cancelRequests_handler_def angle_ok_def Let_def split: if_splits)
next
  case (SaveBrush b)
  with assms show ?thesis
    by (auto simp: saveBrushRequests_handler_def angle_ok_def split: sum.splits if_splits)
qed

text \<open>
  C4: when the angle is a multiple of 90 in \<open>[0, 360)\<close>, a rotate request, whatever the
  mode, sets it to \<open>(angle + 90) mod 360\<close>, passes the new modifications to the content
  and leaves the mode as it is; every request that is handled keeps the angle a multiple
  of 90 in \<open>[0, 360)\<close>; and four rotate requests from angle 0 end at angle 0.
\<close>

theorem rotateRequests_angle:
  assumes "angle_ok s"
  shows "angle (modifications (fst (rotateRequests_handler s p)))
           = (angle (modifications s) + 90) mod 360
         \<and> editor_mode (fst (rotateRequests_handler s p)) = editor_mode s
         \<and> snd (rotateRequests_handler s p)
             = [Content_applyModifications (modifications (fst (rotateRequests_handler s p)))]
         \<and> (\<forall>r s' effs. handle s r = Inr (s', effs) \<longrightarrow> angle_ok s')
         \<and> (angle (modifications s) = 0 \<longrightarrow>
              angle (modifications (fst (rotateRequests_handler
                (fst (rotateRequests_handler
                  (fst (rotateRequests_handler
                    (fst (rotateRequests_handler s p)) p2)) p3)) p4))) = 0)"
proof -
  from assms have a: "0 \<le> angle (modifications s)" "angle (modifications s) < 360"
    by (simp_all add: angle_ok_def)
  have 1: "angle (modifications (fst (rotateRequests_handler s p)))
           = (angle (modifications s) + 90) mod 360"
    unfolding rotate_angle_eq using a by (rule rotate_mod)
  have 2: "snd (rotateRequests_handler s p)
             = [Content_applyModifications (modifications (fst (rotateRequests_handler s p)))]"
    by (simp add: rotateRequests_handler_def Let_def)
  have 3: "\<forall>r s' effs. handle s r = Inr (s', effs) \<longrightarrow> angle_ok s'"
    using assms handle_angle_ok by blast
  have 4: "angle (modifications s) = 0 \<longrightarrow>
              angle (modifications (fst (rotateRequests_handler
                (fst (rotateRequests_handler
                  (fst (rotateRequests_handler
                    (fst (rotateRequests_handler s p)) p2)) p3)) p4))) = 0"
    by (simp add: rotate_angle_eq)
  from 1 2 3 4 show ?thesis by (simp add: rotate_frame)
qed

theorem rotateRequests_angle_witness:
  "angle_ok (PhotoEditor_init \<lparr>angle = 0, flipped = False\<rparr> [])
   \<and> angle (modifications (fst (rotateRequests_handler (PhotoEditor_init \<lparr>angle = 0, flipped = False\<rparr> []) 0))) = 90
   \<and> editor_mode (fst (rotateRequests_handler (PhotoEditor_init \<lparr>angle = 0, flipped = False\<rparr> []) 0))
       = \<lparr>mode = Mode_Transform, action = Action_None\<rparr>
   \<and> angle (modifications (fst (rotateRequests_handler
        (fst (rotateRequests_handler
          (fst (rotateRequests_handler
            (fst (rotateRequests_handler (PhotoEditor_init \<lparr>angle = 0, flipped = False\<rparr> []) 0)) 0)) 0)) 0))) = 0"
proof -
  let ?s = "PhotoEditor_init \<lparr>angle = 0, flipped = False\<rparr> []"
  have h: "angle_ok ?s" by (simp add: angle_ok_def PhotoEditor_init_def)
  have z: "angle (modifications ?s) = 0" by (simp add: PhotoEditor_init_def)
  have m: "editor_mode ?s = \<lparr>mode = Mode_Transform, action = Action_None\<rparr>"
    by (simp add: PhotoEditor_init_def)
  from rotateRequests_angle [OF h, of 0 0 0 0] h z m show ?thesis by simp
qed

text \<open>
  C9: the handler of a rotate request never reads the angle the request carries: two
  requests with different payloads, handled in the same state, give the same state and
  the same effects. Whatever the payload, the handler adds 90 to the angle, takes 360
  off when that reaches 360, passes the new modifications to the content and leaves the
  rest of the state as it is; on an angle that is a multiple of 90 in \<open>[0, 360)\<close> the
  new angle is \<open>(angle + 90) mod 360\<close>.
\<close>

theorem rotateRequests_payload:
  "rotateRequests_handler s p = rotateRequests_handler s q
   \<and> handle s (Rotate p) = handle s (Rotate q)
   \<and> angle (modifications (fst (rotateRequests_handler s p)))
       = (if 360 \<le> angle (modifications s) + 90 then angle (modifications s) + 90 - 360
          else angle (modifications s) + 90)
   \<and> flipped (modifications (fst (rotateRequests_handler s p))) = flipped (modifications s)
   \<and> editor_mode (fst (rotateRequests_handler s p)) = editor_mode s
   \<and> photoEditorBrush (fst (rotateRequests_handler s p)) = photoEditorBrush s
   \<and> snd (rotateRequests_handler s p)
       = [Content_applyModifications (modifications (fst (rotateRequests_handler s p)))]
   \<and> (angle_ok s \<longrightarrow>
        angle (modifications (fst (rotateRequests_handler s p)))
          = (angle (modifications s) + 90) mod 360)"
proof -
  have same: "rotateRequests_handler s p = rotateRequests_handler s q"
    by (simp add: rotateRequests_handler_def)
  have effs: "snd (rotateRequests_handler s p)
       = [Content_applyModifications (modifications (fst (rotateRequests_handler s p)))]"
    by (simp add: rotateRequests_handler_def Let_def)
  have wrap: "angle_ok s \<longrightarrow>
        angle (modifications (fst (rotateRequests_handler s p)))
          = (angle (modifications s) + 90) mod 360"
    unfolding rotate_angle_eq using rotate_mod [of "angle (modifications s)"]
    by (simp add: angle_ok_def)
  from same effs wrap show ?thesis
    by (simp add: rotate_angle_eq rotate_frame)
qed

theorem rotateRequests_payload_witness:
  "angle_ok (PhotoEditor_init \<lparr>angle = 270, flipped = False\<rparr> [])
   \<and> rotateRequests_handler (PhotoEditor_init \<lparr>angle = 270, flipped = False\<rparr> []) 45
       = rotateRequests_handler (PhotoEditor_init \<lparr>angle = 270, flipped = False\<rparr> []) 0
   \<and> angle (modifications (fst (rotateRequests_handler (PhotoEditor_init \<lparr>angle = 270, flipped = False\<rparr> []) 45)))
       = 0"
proof -
  let ?s = "PhotoEditor_init \<lparr>angle = 270, flipped = False\<rparr> []"
  have h: "angle_ok ?s" by (simp add: angle_ok_def PhotoEditor_init_def)
  have a: "angle (modifications ?s) = 270" by (simp add: PhotoEditor_init_def)
  from rotateRequests_payload [of ?s 45 0] h a show ?thesis by auto
qed

subsection \<open>Modes\<close>

text \<open>
  C7: a paint mode request, in any mode and with any pending action, sets the mode to
  paint with no pending action, and changes nothing else.
\<close>

theorem paintModeRequests:
  "editor_mode (fst (paintModeRequests_handler s)) = \<lparr>mode = Mode_Paint, action = Action_None\<rparr>
   \<and> modifications (fst (paintModeRequests_handler s)) = modifications s
   \<and> photoEditorBrush (fst (paintModeRequests_handler s)) = photoEditorBrush s
   \<and> handle s PaintMode = Inr (paintModeRequests_handler s)"
  by (simp add: paintModeRequests_handler_def)

text \<open>
  C5: a done request in paint mode sets the mode to transform with the pending action
  save; in transform mode it saves: the content's \<^verbatim>\<open>save\<close> is called once with the
  current modifications, then the done event is fired with a copy of them, and the
  state stays as it is.
\<close>

theorem doneRequests:
  "(mode (editor_mode s) = Mode_Paint \<longrightarrow>
      doneRequests_handler s
        = (s\<lparr>editor_mode := \<lparr>mode = Mode_Transform, action = Action_Save\<rparr>\<rparr>, []))
   \<and> (mode (editor_mode s) = Mode_Transform \<longrightarrow>
      doneRequests_handler s
        = (s, [Content_save (modifications s), Done_fire_copy (modifications s)]))"
  by (simp add: doneRequests_handler_def save_def)

theorem doneRequests_witness:
  "mode (editor_mode (fst (paintModeRequests_handler (PhotoEditor_init \<lparr>angle = 0, flipped = False\<rparr> [])))) = Mode_Paint
   \<and> editor_mode (fst (doneRequests_handler
         (fst (paintModeRequests_handler (PhotoEditor_init \<lparr>angle = 0, flipped = False\<rparr> [])))))
       = \<lparr>mode = Mode_Transform, action = Action_Save\<rparr>
   \<and> mode (editor_mode (PhotoEditor_init \<lparr>angle = 0, flipped = False\<rparr> [])) = Mode_Transform
   \<and> doneRequests_handler (PhotoEditor_init \<lparr>angle = 0, flipped = False\<rparr> [])
       = (PhotoEditor_init \<lparr>angle = 0, flipped = False\<rparr> [],
          [Content_save \<lparr>angle = 0, flipped = False\<rparr>, Done_fire_copy \<lparr>angle = 0, flipped = False\<rparr>])"
  using doneRequests [of "fst (paintModeRequests_handler (PhotoEditor_init \<lparr>angle = 0, flipped = False\<rparr> []))"]
    doneRequests [of "PhotoEditor_init \<lparr>angle = 0, flipped = False\<rparr> []"]
  by (simp add: PhotoEditor_init_def paintModeRequests_handler_def)

text \<open>
  C6: a cancel request in paint mode sets the mode to transform with the pending action
  discard; in transform mode it fires the cancel event and the state stays as it is.
\<close>

theorem cancelRequests:
  "(mode (editor_mode s) = Mode_Paint \<longrightarrow>
      cancelRequests_handler s
        = (s\<lparr>editor_mode := \<lparr>mode = Mode_Transform, action = Action_Discard\<rparr>\<rparr>, []))
   \<and> (mode (editor_mode s) = Mode_Transform \<longrightarrow>
      cancelRequests_handler s = (s, [Cancel_fire]))"
  by (simp add: cancelRequests_handler_def)

theorem cancelRequests_witness:
  "mode (editor_mode (fst (paintModeRequests_handler (PhotoEditor_init \<lparr>angle = 0, flipped = False\<rparr> [])))) = Mode_Paint
   \<and> editor_mode (fst (cancelRequests_handler
         (fst (paintModeRequests_handler (PhotoEditor_init \<lparr>angle = 0, flipped = False\<rparr> [])))))
       = \<lparr>mode = Mode_Transform, action = Action_Discard\<rparr>
   \<and> mode (editor_mode (PhotoEditor_init \<lparr>angle = 0, flipped = False\<rparr> [])) = Mode_Transform
   \<and> cancelRequests_handler (PhotoEditor_init \<lparr>angle = 0, flipped = False\<rparr> [])
       = (PhotoEditor_init \<lparr>angle = 0, flipped = False\<rparr> [], [Cancel_fire])"
  using cancelRequests [of "fst (paintModeRequests_handler (PhotoEditor_init \<lparr>angle = 0, flipped = False\<rparr> []))"]
    cancelRequests [of "PhotoEditor_init \<lparr>angle = 0, flipped = False\<rparr> []"]
  by (simp add: PhotoEditor_init_def paintModeRequests_handler_def)

subsection \<open>Saving the brush\<close>

text \<open>
  C8: when the brush can be serialized, the handler of a save brush request writes the
  settings and schedules their saving exactly when the new bytes differ from the
  persisted ones, and then the persisted bytes are the new ones; when they are equal
  the state stays as it is. Hence the same brush a second time, right after, touches
  neither the settings nor the schedule.
\<close>

theorem saveBrushRequests_persist:
  assumes "Serialize b = Inr bytes"
  shows "\<exists>s' effs. saveBrushRequests_handler s b = Inr (s', effs)
    \<and> (Settings_setPhotoEditorBrush bytes \<in> set effs \<longleftrightarrow> photoEditorBrush s \<noteq> bytes)
    \<and> (App_saveSettingsDelayed \<in> set effs \<longleftrightarrow> photoEditorBrush s \<noteq> bytes)
    \<and> (\<forall>x. Settings_setPhotoEditorBrush x \<in> set effs \<longrightarrow> x = bytes)
    \<and> photoEditorBrush s' = bytes
    \<and> (photoEditorBrush s = bytes \<longrightarrow> s' = s)
    \<and> saveBrushRequests_handler s' b = Inr (s', [Content_applyBrush b])"
  using assms by (simp add: saveBrushRequests_handler_def)

theorem saveBrushRequests_persist_witness:
  "Serialize \<lparr>sizeRatio = 1 / 2, color = QColor_default\<rparr> = Inr [0, 0, 195, 80, 0, 255, 255, 0, 0, 0, 0, 0, 0, 0, 0]
   \<and> (\<exists>s' effs.
        saveBrushRequests_handler (PhotoEditor_init \<lparr>angle = 0, flipped = False\<rparr> []) \<lparr>sizeRatio = 1 / 2, color = QColor_default\<rparr> = Inr (s', effs)
        \<and> Settings_setPhotoEditorBrush [0, 0, 195, 80, 0, 255, 255, 0, 0, 0, 0, 0, 0, 0, 0] \<in> set effs
        \<and> App_saveSettingsDelayed \<in> set effs
        \<and> photoEditorBrush s' = [0, 0, 195, 80, 0, 255, 255, 0, 0, 0, 0, 0, 0, 0, 0]
        \<and> saveBrushRequests_handler s' \<lparr>sizeRatio = 1 / 2, color = QColor_default\<rparr>
            = Inr (s', [Content_applyBrush \<lparr>sizeRatio = 1 / 2, color = QColor_default\<rparr>]))"
proof -
  have h: "Serialize \<lparr>sizeRatio = 1 / 2, color = QColor_default\<rparr> = Inr [0, 0, 195, 80, 0, 255, 255, 0, 0, 0, 0, 0, 0, 0, 0]"
    by code_simp
  have n: "photoEditorBrush (PhotoEditor_init \<lparr>angle = 0, flipped = False\<rparr> []) \<noteq> [0, 0, 195, 80, 0, 255, 255, 0, 0, 0, 0, 0, 0, 0, 0]"
    by (simp add: PhotoEditor_init_def)
  from saveBrushRequests_persist [OF h, of "PhotoEditor_init \<lparr>angle = 0, flipped = False\<rparr> []"] h n
  show ?thesis by auto
qed

text \<open>
  C10: the handler of a save brush request passes the brush to the content first, and
  once, for every brush and every state: when the settings are written, when they are
  left alone because the persisted bytes are already the new ones (then this call is all
  the handler does), and when the brush is too large to be serialized.
\<close>

theorem saveBrushRequests_applyBrush:
  "\<exists>rest. effects_of (saveBrushRequests_handler s b) = Content_applyBrush b # rest
     \<and> Content_applyBrush b \<notin> set rest
     \<and> (Serialize b = Inr (photoEditorBrush s) \<longrightarrow>
          saveBrushRequests_handler s b = Inr (s, [Content_applyBrush b]))"
  by (cases "Serialize b") (auto simp: saveBrushRequests_handler_def effects_of_def)

theorem saveBrushRequests_applyBrush_witness:
  "Serialize \<lparr>sizeRatio = 1 / 2, color = QColor_default\<rparr> = Inr (photoEditorBrush (PhotoEditor_init \<lparr>angle = 0, flipped = False\<rparr> [0, 0, 195, 80, 0, 255, 255, 0, 0, 0, 0, 0, 0, 0, 0]))
   \<and> saveBrushRequests_handler (PhotoEditor_init \<lparr>angle = 0, flipped = False\<rparr> [0, 0, 195, 80, 0, 255, 255, 0, 0, 0, 0, 0, 0, 0, 0]) \<lparr>sizeRatio = 1 / 2, color = QColor_default\<rparr>
       = Inr (PhotoEditor_init \<lparr>angle = 0, flipped = False\<rparr> [0, 0, 195, 80, 0, 255, 255, 0, 0, 0, 0, 0, 0, 0, 0], [Content_applyBrush \<lparr>sizeRatio = 1 / 2, color = QColor_default\<rparr>])
   \<and> Serialize \<lparr>sizeRatio = 30000, color = QColor_default\<rparr> = Inl FloatToIntOverflow
   \<and> (\<exists>rest. effects_of (saveBrushRequests_handler (PhotoEditor_init \<lparr>angle = 0, flipped = False\<rparr> [0, 0, 195, 80, 0, 255, 255, 0, 0, 0, 0, 0, 0, 0, 0]) \<lparr>sizeRatio = 30000, color = QColor_default\<rparr>)
         = Content_applyBrush \<lparr>sizeRatio = 30000, color = QColor_default\<rparr> # rest)"
proof -
  let ?s = "PhotoEditor_init \<lparr>angle = 0, flipped = False\<rparr> [0, 0, 195, 80, 0, 255, 255, 0, 0, 0, 0, 0, 0, 0, 0]"
  have h: "Serialize \<lparr>sizeRatio = 1 / 2, color = QColor_default\<rparr> = Inr (photoEditorBrush ?s)"
    unfolding PhotoEditor_init_def by code_simp
  have o: "Serialize \<lparr>sizeRatio = 30000, color = QColor_default\<rparr> = Inl FloatToIntOverflow"
    by code_simp
  from saveBrushRequests_applyBrush [of ?s "\<lparr>sizeRatio = 1 / 2, color = QColor_default\<rparr>"]
    saveBrushRequests_applyBrush [of ?s "\<lparr>sizeRatio = 30000, color = QColor_default\<rparr>"] h o
  show ?thesis by blast
qed

end
